theory Spec2Isabelle
  imports Main
begin

section \<open>The reply area of the stories viewer\<close>

text \<open>
  A shallow embedding of \<^verbatim>\<open>Media::Stories::ReplyArea\<close>
  (\<^verbatim>\<open>media/stories/media_stories_reply.cpp\<close>). The member functions become functions on
  a record of the object's fields. Calls into the collaborators (the session API, the
  toast and box layer, the compose controls, the file dialog) are appended to a log of
  effects, in the order the code makes them. Whatever a collaborator computes is a field
  of the record \<open>Collaborators\<close>, a parameter of every function. A failed
  \<^verbatim>\<open>Expects\<close>, an \<^verbatim>\<open>Unexpected\<close> and a read that C++ leaves undefined are values
  of the type \<open>failure\<close>.
\<close>

subsection \<open>Values passed to and from the collaborators\<close>

type_synonym PeerId = nat
type_synonym StoryId = int
type_synonym WebPageId = nat
type_synonym QByteArray = "nat list"

text \<open>A non-null \<^verbatim>\<open>UserData*\<close> or \<^verbatim>\<open>PeerData*\<close> is the address of the object; a
  pointer that may be null is an \<open>option\<close> of it.\<close>

type_synonym UserPtr = nat
type_synonym PeerPtr = nat

text \<open>\<^verbatim>\<open>user->owner().history(user)\<close>: the conversation history of a user.\<close>

datatype History = HistoryOf UserPtr

datatype failure = ExpectsFailed | UnexpectedAction | NullDereference | BackOfEmptyVector

record TextWithTags =
  text_str :: string
  tags :: "(nat \<times> nat \<times> string) list"

definition emptyText :: TextWithTags where
  "emptyText = \<lparr>text_str = [], tags = []\<rparr>"

record FullStoryId =
  peer :: PeerId
  story :: StoryId

record FullReplyTo =
  storyId :: FullStoryId

record SendOptions =
  scheduled :: int
  silent :: bool
  sendAs :: "PeerPtr option"

definition defaultSendOptions :: SendOptions where
  "defaultSendOptions = \<lparr>scheduled = 0, silent = False, sendAs = None\<rparr>"

record SendAction =
  history :: History
  options :: SendOptions
  replyTo :: FullReplyTo
  clearDraft :: bool

text \<open>\<^verbatim>\<open>Api::SendAction(history, options)\<close>: no reply target, the draft is cleared.\<close>

definition newSendAction :: "History \<Rightarrow> SendOptions \<Rightarrow> SendAction" where
  "newSendAction h opts =
     \<lparr>history = h, options = opts,
      replyTo = \<lparr>storyId = \<lparr>peer = 0, story = 0\<rparr>\<rparr>, clearDraft = True\<rparr>"

record MessageToSend =
  action :: SendAction
  textWithTags :: TextWithTags
  webPageId :: WebPageId

datatype PreparedListError = ErrorNone | EmptyFile | Directory | NonLocalUrl | TooLargeFile

record PreparedFile =
  path :: string
  size_f :: int

record PreparedList =
  error :: PreparedListError
  errorData :: string
  files :: "PreparedFile list"
  filesToProcess :: "string list"
  overrideSendImagesAsPhotos :: "bool option"

datatype AlbumType = AlbumNone | AlbumPhotoVideo | AlbumMusic | AlbumFile

record PreparedGroup =
  list_g :: PreparedList
  type_g :: AlbumType

datatype SendMediaType = Photo | Audio | File

record SendFilesWay =
  sendImagesAsPhotos :: bool
  groupFiles :: bool

record VoiceToSend =
  bytes :: QByteArray
  waveform :: "nat list"
  duration :: int
  options_v :: SendOptions

datatype QImage = NullImage | Image nat

record MimeData =
  hasImage :: bool
  mimeUrls :: "string list"
  mimeImage :: QImage
  mimeImageContent :: QByteArray
  mimeText :: string

datatype MimeAction = Check | Insert

record OpenResult =
  paths :: "string list"
  remoteContent :: QByteArray

datatype DialogFilter = ImagesOrAllFilter | AllOrImagesFilter

subsection \<open>The object's state\<close>

text \<open>Modelled from the spec: \<^verbatim>\<open>ReplyAreaData\<close> is declared in the header, which is not
  among the sources; it is the small record pairing the user being replied to with the
  story identifier being replied to, compared field by field, and a default-constructed
  one has no user and story 0.\<close>

record ReplyAreaData =
  user :: "UserPtr option"
  id_story :: StoryId

text \<open>Modelled from the spec: the compose controls are the text/attachment input widget,
  implemented outside this file. Of their state the model keeps the text of the input
  field, the history they target, the web page preview and the send-as peer.\<close>

record ComposeControls =
  fieldText :: TextWithTags
  shownHistory :: "History option"
  webPage :: WebPageId
  sendAsPeer :: "PeerPtr option"

text \<open>A file dialog that \<^verbatim>\<open>chooseAttach\<close> has opened and whose callback has not run yet.
  \<open>dlg_guard\<close> is the weak handle that \<^verbatim>\<open>crl::guard(&_shownUserGuard, callback)\<close> took,
  \<open>dlg_override\<close> the captured \<^verbatim>\<open>overrideSendImagesAsPhotos\<close>. \<open>dlg_user\<close> is not read by
  the code: it records the user that was current when the dialog was requested, so that
  properties of the guard can be stated.\<close>

record OpenDialog =
  dlg_guard :: nat
  dlg_override :: "bool option"
  dlg_user :: UserPtr

datatype effect =
    ShowToast string
  | ShowFileSizeLimitBox int
  | ShowSendFilesBox PreparedList TextWithTags string
  | ApiSendMessage MessageToSend
  | ApiSendVoiceMessage QByteArray "nat list" int SendAction
  | ApiSendFile QByteArray SendMediaType SendAction
  | ApiSendFiles PreparedList SendMediaType TextWithTags bool SendAction
  | ControlsClear
  | ControlsClearListenState
  | ControlsHidePanelsAnimated
  | ControlsSetHistory "History option"
  | ControlsConfirmMediaEdit PreparedList
  | WrapSetFocus
  | HideLayer
  | UnfocusReply
  | GetOpenPaths DialogFilter

text \<open>Modelled from the spec: the weak handle \<^verbatim>\<open>_shownUserGuard\<close> (\<^verbatim>\<open>base::has_weak_ptr\<close>,
  declared outside the sources) is a generation number: a guarded callback remembers the
  generation it was made in and runs only while that is still the current one;
  \<^verbatim>\<open>invalidate_weak_ptrs\<close> starts a new generation. \<open>delayed\<close> holds the arguments of the
  \<^verbatim>\<open>chooseAttach\<close> calls that \<^verbatim>\<open>base::call_delayed\<close> has scheduled and not yet run.\<close>

record ReplyArea =
  data :: ReplyAreaData
  choosingAttach :: bool
  shownUserGuard :: nat
  controls :: ComposeControls
  delayed :: "bool option list"
  dialogs :: "OpenDialog list"
  effects :: "effect list"

text \<open>What the collaborators compute. \<open>peerIdOf\<close> is \<^verbatim>\<open>user->id\<close>, \<open>slowmodeApplied\<close> is
  \<^verbatim>\<open>user->slowmodeApplied()\<close>, and \<open>premium\<close> tells whether the account of the session
  reached through the user is a premium one (\<^verbatim>\<open>session().premium()\<close>,
  \<^verbatim>\<open>session().user()->isPremium()\<close>). The preview size passed to the media preparation is
  a constant of the style and is left out.\<close>

record Collaborators =
  GetErrorTextForSending :: "UserPtr option \<Rightarrow> TextWithTags \<Rightarrow> bool \<Rightarrow> string"
  FileRestrictionError :: "UserPtr \<Rightarrow> PreparedList \<Rightarrow> bool option \<Rightarrow> string option"
  AnyFileRestrictionError :: "UserPtr \<Rightarrow> string option"
  lng_send_image_empty :: "string \<Rightarrow> string"
  peerIdOf :: "UserPtr \<Rightarrow> PeerId"
  slowmodeApplied :: "UserPtr \<Rightarrow> bool"
  premium :: "UserPtr \<Rightarrow> bool"
  getTextWithAppliedMarkdown :: "ComposeControls \<Rightarrow> TextWithTags"
  confirmMediaEdit :: "ComposeControls \<Rightarrow> PreparedList \<Rightarrow> bool"
  PrepareMediaList :: "string list \<Rightarrow> bool \<Rightarrow> PreparedList"
  PrepareMediaFromImage :: "QImage \<Rightarrow> QByteArray \<Rightarrow> PreparedList"
  ImagesRead :: "QByteArray \<Rightarrow> QImage \<times> bool"
  DivideByGroups :: "PreparedList \<Rightarrow> SendFilesWay \<Rightarrow> bool \<Rightarrow> PreparedGroup list"
  sentWithCaption :: "PreparedGroup \<Rightarrow> bool"

subsection \<open>Calls into the collaborators\<close>

definition emit :: "effect \<Rightarrow> ReplyArea \<Rightarrow> ReplyArea" where
  "emit e s = s\<lparr>effects := effects s @ [e]\<rparr>"

definition showToast :: "string \<Rightarrow> ReplyArea \<Rightarrow> ReplyArea" where
  "showToast t s = emit (ShowToast t) s"

text \<open>Modelled from the spec: \<^verbatim>\<open>_controls->clear()\<close> clears the input widget.\<close>

definition controls_clear :: "ReplyArea \<Rightarrow> ReplyArea" where
  "controls_clear s =
     emit ControlsClear (s\<lparr>controls := (controls s)\<lparr>fieldText := emptyText\<rparr>\<rparr>)"

text \<open>Modelled from the spec: \<^verbatim>\<open>_controls->setHistory({.history = h})\<close> swaps which
  conversation history the controls target.\<close>

definition controls_setHistory :: "History option \<Rightarrow> ReplyArea \<Rightarrow> ReplyArea" where
  "controls_setHistory h s =
     emit (ControlsSetHistory h) (s\<lparr>controls := (controls s)\<lparr>shownHistory := h\<rparr>\<rparr>)"

definition invalidate_weak_ptrs :: "ReplyArea \<Rightarrow> ReplyArea" where
  "invalidate_weak_ptrs s = s\<lparr>shownUserGuard := Suc (shownUserGuard s)\<rparr>"

subsection \<open>The member functions\<close>

text \<open>\<^verbatim>\<open>ReplyArea::session\<close>: the session is reached through the current user.\<close>

definition session :: "ReplyArea \<Rightarrow> failure + UserPtr" where
  "session s = (case user (data s) of None \<Rightarrow> Inl ExpectsFailed | Some u \<Rightarrow> Inr u)"

definition prepareSendAction ::
  "Collaborators \<Rightarrow> ReplyArea \<Rightarrow> SendOptions \<Rightarrow> failure + SendAction" where
  "prepareSendAction env s opts =
     (case user (data s) of
        None \<Rightarrow> Inl ExpectsFailed
      | Some u \<Rightarrow>
          let result = newSendAction (HistoryOf u) opts;
              result = result\<lparr>options := (options result)\<lparr>sendAs := sendAsPeer (controls s)\<rparr>\<rparr>;
              result = result\<lparr>replyTo := (replyTo result)
                \<lparr>storyId := \<lparr>peer = peerIdOf env u, story = id_story (data s)\<rparr>\<rparr>\<rparr>
          in Inr result)"

definition finishSending :: "ReplyArea \<Rightarrow> ReplyArea" where
  "finishSending s = emit WrapSetFocus (emit ControlsHidePanelsAnimated s)"

definition send :: "Collaborators \<Rightarrow> SendOptions \<Rightarrow> ReplyArea \<Rightarrow> failure + ReplyArea" where
  "send env opts s =
     (let webPageId_l = webPage (controls s) in
      case prepareSendAction env s opts of
        Inl f \<Rightarrow> Inl f
      | Inr act \<Rightarrow>
          let message = \<lparr>action = act,
                textWithTags = getTextWithAppliedMarkdown env (controls s),
                webPageId = webPageId_l\<rparr>;
              err = GetErrorTextForSending env (user (data s)) (textWithTags message)
                (scheduled opts \<noteq> 0);
              s1 = (if err \<noteq> [] then showToast err s else s)
          in case session s1 of
               Inl f \<Rightarrow> Inl f
             | Inr _ \<Rightarrow>
                 Inr (finishSending (controls_clear (emit (ApiSendMessage message) s1))))"

definition sendVoice :: "Collaborators \<Rightarrow> VoiceToSend \<Rightarrow> ReplyArea \<Rightarrow> failure + ReplyArea" where
  "sendVoice env v s =
     (case prepareSendAction env s (options_v v) of
        Inl f \<Rightarrow> Inl f
      | Inr act \<Rightarrow>
          (case session s of
             Inl f \<Rightarrow> Inl f
           | Inr _ \<Rightarrow>
               Inr (finishSending (emit ControlsClearListenState
                 (emit (ApiSendVoiceMessage (bytes v) (waveform v) (duration v) act) s)))))"

definition uploadFile ::
  "Collaborators \<Rightarrow> QByteArray \<Rightarrow> SendMediaType \<Rightarrow> ReplyArea \<Rightarrow> failure + ReplyArea" where
  "uploadFile env fileContent type s =
     (case session s of
        Inl f \<Rightarrow> Inl f
      | Inr _ \<Rightarrow>
          (case prepareSendAction env s defaultSendOptions of
             Inl f \<Rightarrow> Inl f
           | Inr act \<Rightarrow> Inr (emit (ApiSendFile fileContent type act) s)))"

text \<open>The text that the lambda at the head of \<^verbatim>\<open>showSendingFilesError\<close> computes.
  \<^verbatim>\<open>Data::FileRestrictionError\<close> takes a \<^verbatim>\<open>not_null<PeerData*>\<close>: handing it
  \<^verbatim>\<open>_data.user\<close> when there is no user fails the \<^verbatim>\<open>Expects\<close> of that conversion. The
  \<^verbatim>\<open>return\<close> after the \<^verbatim>\<open>switch\<close> is reached by no value of the enumeration.\<close>

definition sendingFilesErrorText ::
  "Collaborators \<Rightarrow> ReplyArea \<Rightarrow> PreparedList \<Rightarrow> bool option \<Rightarrow> failure + string" where
  "sendingFilesErrorText env s lst compress =
     (case user (data s) of
        None \<Rightarrow> Inl ExpectsFailed
      | Some peer_l \<Rightarrow>
          (case FileRestrictionError env peer_l lst compress of
             Some e \<Rightarrow> Inr e
           | None \<Rightarrow>
               (case error lst of
                  ErrorNone \<Rightarrow> Inr []
                | EmptyFile \<Rightarrow> Inr (lng_send_image_empty env (errorData lst))
                | Directory \<Rightarrow> Inr (lng_send_image_empty env (errorData lst))
                | NonLocalUrl \<Rightarrow> Inr (lng_send_image_empty env (errorData lst))
                | TooLargeFile \<Rightarrow> Inr ''(toolarge)'')))"

text \<open>\<^verbatim>\<open>showSendingFilesError(list, compress)\<close>. \<^verbatim>\<open>list.files.back()\<close> of an empty vector
  is undefined in C++; \<^verbatim>\<open>&session()\<close> expects a user.\<close>

definition showSendingFilesError ::
  "Collaborators \<Rightarrow> PreparedList \<Rightarrow> bool option \<Rightarrow> ReplyArea \<Rightarrow> failure + bool \<times> ReplyArea" where
  "showSendingFilesError env lst compress s =
     (case sendingFilesErrorText env s lst compress of
        Inl f \<Rightarrow> Inl f
      | Inr txt \<Rightarrow>
          if txt = [] then Inr (False, s)
          else if txt = ''(toolarge)'' then
            (case files lst of
               [] \<Rightarrow> Inl BackOfEmptyVector
             | _ # _ \<Rightarrow>
                 let fileSize = size_f (last (files lst)) in
                 (case session s of
                    Inl f \<Rightarrow> Inl f
                  | Inr _ \<Rightarrow> Inr (True, emit (ShowFileSizeLimitBox fileSize) s)))
          else Inr (True, showToast txt s))"

definition show_data :: "ReplyAreaData \<Rightarrow> ReplyArea \<Rightarrow> ReplyArea" where
  "show_data d s =
     (if data s = d then s
      else
        let userChanged = (user (data s) \<noteq> user d);
            s1 = s\<lparr>data := d\<rparr>
        in if \<not> userChanged then
             (if user (data s1) \<noteq> None then controls_clear s1 else s1)
           else
             let s2 = invalidate_weak_ptrs s1;
                 history_l = (case user d of Some u \<Rightarrow> Some (HistoryOf u) | None \<Rightarrow> None)
             in controls_clear (controls_setHistory history_l s2))"

text \<open>\<^verbatim>\<open>confirmSendingFiles(Ui::PreparedList&&, insertTextOnCancel)\<close>. The limits and the
  check of the box descriptor are fixed by the current user and are not part of the
  logged box.\<close>

definition confirmSendingFiles_list ::
  "Collaborators \<Rightarrow> PreparedList \<Rightarrow> string \<Rightarrow> ReplyArea \<Rightarrow> failure + bool \<times> ReplyArea" where
  "confirmSendingFiles_list env lst insertTextOnCancel s =
     (if confirmMediaEdit env (controls s) lst
      then Inr (True, emit (ControlsConfirmMediaEdit lst) s)
      else
        (case showSendingFilesError env lst None s of
           Inl f \<Rightarrow> Inl f
         | Inr (shown, s1) \<Rightarrow>
             if shown then Inr (False, s1)
             else Inr (True, emit (ShowSendFilesBox lst
                    (getTextWithAppliedMarkdown env (controls s1)) insertTextOnCancel) s1)))"

text \<open>\<^verbatim>\<open>confirmSendingFiles(QImage&&, QByteArray&&, override, insertTextOnCancel)\<close>.\<close>

definition confirmSendingFiles_image ::
  "Collaborators \<Rightarrow> QImage \<Rightarrow> QByteArray \<Rightarrow> bool option \<Rightarrow> string \<Rightarrow> ReplyArea
     \<Rightarrow> failure + bool \<times> ReplyArea" where
  "confirmSendingFiles_image env img content ov insertTextOnCancel s =
     (if img = NullImage then Inr (False, s)
      else
        let lst = PrepareMediaFromImage env img content;
            lst = lst\<lparr>overrideSendImagesAsPhotos := ov\<rparr>
        in confirmSendingFiles_list env lst insertTextOnCancel s)"

text \<open>\<^verbatim>\<open>confirmSendingFiles(not_null<const QMimeData*>, override, insertTextOnCancel)\<close>.
  \<^verbatim>\<open>Core::ReadMimeUrls\<close> and \<^verbatim>\<open>Core::ReadMimeImage\<close> read the fields of the payload.\<close>

definition confirmSendingFiles_mime ::
  "Collaborators \<Rightarrow> MimeData \<Rightarrow> bool option \<Rightarrow> string \<Rightarrow> ReplyArea
     \<Rightarrow> failure + bool \<times> ReplyArea" where
  "confirmSendingFiles_mime env d ov insertTextOnCancel s =
     (let hasImage_l = hasImage d in
      case session s of
        Inl f \<Rightarrow> Inl f
      | Inr u \<Rightarrow>
          let premium_l = premium env u;
              urls = mimeUrls d;
              lst = PrepareMediaList env urls premium_l
          in if urls \<noteq> [] \<and> error lst \<noteq> NonLocalUrl \<and> (error lst = ErrorNone \<or> \<not> hasImage_l)
             then
               (case confirmSendingFiles_list env (lst\<lparr>overrideSendImagesAsPhotos := ov\<rparr>) [] s of
                  Inl f \<Rightarrow> Inl f
                | Inr (_, s1) \<Rightarrow> Inr (True, s1))
             else if mimeImage d \<noteq> NullImage then
               (case confirmSendingFiles_image env (mimeImage d) (mimeImageContent d) ov
                       insertTextOnCancel s of
                  Inl f \<Rightarrow> Inl f
                | Inr (_, s1) \<Rightarrow> Inr (True, s1))
             else Inr (False, s))"

text \<open>The loop over the groups in \<^verbatim>\<open>sendingFilesConfirmed\<close>: \<^verbatim>\<open>base::take(caption)\<close> hands
  the caption to the first group and leaves it empty for the others.\<close>

fun sendGroups ::
  "PreparedGroup list \<Rightarrow> SendMediaType \<Rightarrow> TextWithTags \<Rightarrow> SendAction \<Rightarrow> ReplyArea \<Rightarrow> ReplyArea" where
  "sendGroups [] type caption act s = s"
| "sendGroups (g # gs) type caption act s =
     sendGroups gs type emptyText act
       (emit (ApiSendFiles (list_g g) type caption (type_g g \<noteq> AlbumNone) act) s)"

definition sendingFilesConfirmed ::
  "Collaborators \<Rightarrow> PreparedList \<Rightarrow> SendFilesWay \<Rightarrow> TextWithTags \<Rightarrow> SendOptions \<Rightarrow> bool
     \<Rightarrow> ReplyArea \<Rightarrow> failure + ReplyArea" where
  "sendingFilesConfirmed env lst way caption opts ctrlShiftEnter s =
     (if filesToProcess lst \<noteq> [] then Inl ExpectsFailed
      else
        (case showSendingFilesError env lst (Some (sendImagesAsPhotos way)) s of
           Inl f \<Rightarrow> Inl f
         | Inr (shown, s1) \<Rightarrow>
             if shown then Inr s1
             else
               (case user (data s1) of
                  None \<Rightarrow> Inl NullDereference
                | Some u \<Rightarrow>
                    let groups = DivideByGroups env lst way (slowmodeApplied env u);
                        type = (if sendImagesAsPhotos way then Photo else File)
                    in case prepareSendAction env s1 opts of
                         Inl f \<Rightarrow> Inl f
                       | Inr act0 \<Rightarrow>
                           let act = act0\<lparr>clearDraft := False\<rparr>;
                               separate =
                                 ((case groups of [g] \<Rightarrow> \<not> sentWithCaption env g | _ \<Rightarrow> True)
                                  \<and> text_str caption \<noteq> []);
                               s2 = (if separate
                                     then emit (ApiSendMessage
                                       \<lparr>action = act, textWithTags = caption, webPageId = 0\<rparr>) s1
                                     else s1);
                               caption1 = (if separate then emptyText else caption)
                           in Inr (finishSending (sendGroups groups type caption1 act s2)))))"

text \<open>\<^verbatim>\<open>chooseAttach\<close>: \<^verbatim>\<open>FileDialog::GetOpenPaths\<close> registers the guarded callback.\<close>

definition chooseAttach :: "Collaborators \<Rightarrow> bool option \<Rightarrow> ReplyArea \<Rightarrow> ReplyArea" where
  "chooseAttach env ov s =
     (case user (data s) of
        None \<Rightarrow> s
      | Some u \<Rightarrow>
          let s1 = s\<lparr>choosingAttach := False\<rparr> in
          (case AnyFileRestrictionError env u of
             Some e \<Rightarrow> showToast e s1
           | None \<Rightarrow>
               let filter_l = (if ov = Some True then ImagesOrAllFilter else AllOrImagesFilter);
                   callback = \<lparr>dlg_guard = shownUserGuard s1, dlg_override = ov, dlg_user = u\<rparr>
               in emit (GetOpenPaths filter_l) (s1\<lparr>dialogs := dialogs s1 @ [callback]\<rparr>)))"

text \<open>The body of the lambda \<^verbatim>\<open>callback\<close> of \<^verbatim>\<open>chooseAttach\<close>.\<close>

definition chooseAttachCallback ::
  "Collaborators \<Rightarrow> bool option \<Rightarrow> OpenResult \<Rightarrow> ReplyArea \<Rightarrow> failure + ReplyArea" where
  "chooseAttachCallback env ov r s =
     (if paths r = [] \<and> remoteContent r = [] then Inr s
      else if remoteContent r \<noteq> [] then
        (case ImagesRead env (remoteContent r) of
           (img, animated) \<Rightarrow>
             if img \<noteq> NullImage \<and> \<not> animated then
               (case confirmSendingFiles_image env img (remoteContent r) ov [] s of
                  Inl f \<Rightarrow> Inl f
                | Inr (_, s1) \<Rightarrow> Inr s1)
             else uploadFile env (remoteContent r) File s)
      else
        (case session s of
           Inl f \<Rightarrow> Inl f
         | Inr u \<Rightarrow>
             let lst = PrepareMediaList env (paths r) (premium env u);
                 lst = lst\<lparr>overrideSendImagesAsPhotos := ov\<rparr>
             in case confirmSendingFiles_list env lst [] s of
                  Inl f \<Rightarrow> Inl f
                | Inr (_, s1) \<Rightarrow> Inr s1))"

subsection \<open>The subscriptions of \<^verbatim>\<open>initActions\<close>\<close>

record FileChosen =
  document :: nat
  options_fc :: SendOptions

record PhotoChosen =
  photo :: nat
  options_pc :: SendOptions

record InlineChosen =
  result_ic :: nat
  bot :: nat
  options_ic :: SendOptions

definition cancelRequests :: "ReplyArea \<Rightarrow> ReplyArea" where
  "cancelRequests s = emit UnfocusReply s"

text \<open>\<^verbatim>\<open>attachRequests\<close>: the filter, then the handler that schedules \<^verbatim>\<open>chooseAttach\<close>.\<close>

definition attachRequests :: "bool option \<Rightarrow> ReplyArea \<Rightarrow> ReplyArea" where
  "attachRequests overrideCompress s =
     (if \<not> choosingAttach s
      then s\<lparr>choosingAttach := True, delayed := delayed s @ [overrideCompress]\<rparr>
      else s)"

definition fileChosen :: "FileChosen \<Rightarrow> ReplyArea \<Rightarrow> ReplyArea" where
  "fileChosen d s = emit HideLayer s"

definition photoChosen :: "PhotoChosen \<Rightarrow> ReplyArea \<Rightarrow> ReplyArea" where
  "photoChosen chosen s = s"

definition inlineResultChosen :: "InlineChosen \<Rightarrow> ReplyArea \<Rightarrow> ReplyArea" where
  "inlineResultChosen chosen s = s"

definition mimeDataHook :: "MimeData \<Rightarrow> MimeAction \<Rightarrow> ReplyArea \<Rightarrow> failure + bool \<times> ReplyArea" where
  "mimeDataHook d act s =
     (if act = Check then Inr (False, s)
      else if act = Insert then Inr (False, s)
      else Inl UnexpectedAction)"

subsection \<open>The object in its event loop\<close>

text \<open>The constructor: default members, then \<^verbatim>\<open>initGeometry\<close> and \<^verbatim>\<open>initActions\<close>, which
  only subscribe.\<close>

definition ReplyArea_new :: ReplyArea where
  "ReplyArea_new =
     \<lparr>data = \<lparr>user = None, id_story = 0\<rparr>,
      choosingAttach = False,
      shownUserGuard = 0,
      controls = \<lparr>fieldText = emptyText, shownHistory = None, webPage = 0, sendAsPeer = None\<rparr>,
      delayed = [],
      dialogs = [],
      effects = []\<rparr>"

text \<open>What can happen to the object on the UI thread: a signal of the compose controls
  fires, the controller calls \<^verbatim>\<open>show\<close>, the oldest delayed call comes due, the file dialog
  number \<open>i\<close> finishes with a result, the send-files box confirms, or the user edits the
  input field.\<close>

datatype event =
    SendRequest SendOptions
  | SendVoiceRequest VoiceToSend
  | CancelRequest
  | AttachRequest "bool option"
  | DelayedCall
  | FileChosenEvent FileChosen
  | PhotoChosenEvent PhotoChosen
  | InlineResultChosenEvent InlineChosen
  | MimeDataEvent MimeData MimeAction
  | DialogFinished nat OpenResult
  | FilesConfirmed PreparedList SendFilesWay TextWithTags SendOptions bool
  | Show ReplyAreaData
  | FieldEdited TextWithTags

definition delayedCall :: "Collaborators \<Rightarrow> ReplyArea \<Rightarrow> ReplyArea" where
  "delayedCall env s =
     (case delayed s of
        [] \<Rightarrow> s
      | overrideCompress # rest \<Rightarrow> chooseAttach env overrideCompress (s\<lparr>delayed := rest\<rparr>))"

text \<open>The guarded callback of dialog \<open>i\<close>: it runs only while its weak handle is valid.\<close>

definition dialogFinished ::
  "Collaborators \<Rightarrow> nat \<Rightarrow> OpenResult \<Rightarrow> ReplyArea \<Rightarrow> failure + ReplyArea" where
  "dialogFinished env i r s =
     (if i < length (dialogs s) then
        let d = dialogs s ! i;
            s1 = s\<lparr>dialogs := take i (dialogs s) @ drop (Suc i) (dialogs s)\<rparr>
        in if dlg_guard d = shownUserGuard s1
           then chooseAttachCallback env (dlg_override d) r s1
           else Inr s1
      else Inr s)"

fun step :: "Collaborators \<Rightarrow> event \<Rightarrow> ReplyArea \<Rightarrow> failure + ReplyArea" where
  "step env (SendRequest opts) s = send env opts s"
| "step env (SendVoiceRequest v) s = sendVoice env v s"
| "step env CancelRequest s = Inr (cancelRequests s)"
| "step env (AttachRequest ov) s = Inr (attachRequests ov s)"
| "step env DelayedCall s = Inr (delayedCall env s)"
| "step env (FileChosenEvent d) s = Inr (fileChosen d s)"
| "step env (PhotoChosenEvent c) s = Inr (photoChosen c s)"
| "step env (InlineResultChosenEvent c) s = Inr (inlineResultChosen c s)"
| "step env (MimeDataEvent d act) s =
     (case mimeDataHook d act s of Inl f \<Rightarrow> Inl f | Inr (_, s1) \<Rightarrow> Inr s1)"
| "step env (DialogFinished i r) s = dialogFinished env i r s"
| "step env (FilesConfirmed lst way caption opts cse) s =
     sendingFilesConfirmed env lst way caption opts cse s"
| "step env (Show d) s = Inr (show_data d s)"
| "step env (FieldEdited t) s = Inr (s\<lparr>controls := (controls s)\<lparr>fieldText := t\<rparr>\<rparr>)"

fun run :: "Collaborators \<Rightarrow> event list \<Rightarrow> ReplyArea \<Rightarrow> failure + ReplyArea" where
  "run env [] s = Inr s"
| "run env (e # es) s = (case step env e s of Inl f \<Rightarrow> Inl f | Inr s1 \<Rightarrow> run env es s1)"

subsection \<open>Auxiliary notions for the properties\<close>

text \<open>The effects that hand something to the session API.\<close>

fun isApiCall :: "effect \<Rightarrow> bool" where
  "isApiCall (ApiSendMessage m) = True"
| "isApiCall (ApiSendVoiceMessage b w d a) = True"
| "isApiCall (ApiSendFile c t a) = True"
| "isApiCall (ApiSendFiles l t c al a) = True"
| "isApiCall e = False"

text \<open>The members of the object are the same in both states; the log of effects and the
  state of the compose controls may differ.\<close>

definition sameMembers :: "ReplyArea \<Rightarrow> ReplyArea \<Rightarrow> bool" where
  "sameMembers s s' =
     (data s' = data s \<and> choosingAttach s' = choosingAttach s
      \<and> shownUserGuard s' = shownUserGuard s \<and> delayed s' = delayed s
      \<and> dialogs s' = dialogs s)"

text \<open>At most one \<^verbatim>\<open>chooseAttach\<close> call is scheduled, and only while the flag is set.\<close>

definition pendingOk :: "ReplyArea \<Rightarrow> bool" where
  "pendingOk s = (delayed s = [] \<or> (choosingAttach s \<and> length (delayed s) = 1))"

text \<open>The weak handle of every open dialog is the current one or an older one, and a
  dialog that holds the current one was requested under the current user.\<close>

definition guardsOk :: "ReplyArea \<Rightarrow> bool" where
  "guardsOk s =
     list_all (\<lambda>d. dlg_guard d < shownUserGuard s
                 \<or> (dlg_guard d = shownUserGuard s \<and> user (data s) = Some (dlg_user d)))
       (dialogs s)"

subsection \<open>Concrete collaborators and states\<close>

text \<open>Collaborators whose three checks answer with the given texts, and some states and
  inputs, for evaluating the functions.\<close>

definition demoCollaborators :: "string \<Rightarrow> string option \<Rightarrow> string option \<Rightarrow> Collaborators" where
  "demoCollaborators sendError fileError attachError =
     \<lparr>GetErrorTextForSending = (\<lambda>u t ignoreSlowmode. sendError),
      FileRestrictionError = (\<lambda>u lst compress. fileError),
      AnyFileRestrictionError = (\<lambda>u. attachError),
      lng_send_image_empty = (\<lambda>name. ''Could not send an empty file: '' @ name),
      peerIdOf = (\<lambda>u. 1000 + u),
      slowmodeApplied = (\<lambda>u. False),
      premium = (\<lambda>u. False),
      getTextWithAppliedMarkdown = fieldText,
      confirmMediaEdit = (\<lambda>c lst. False),
      PrepareMediaList = (\<lambda>ps prem.
        \<lparr>error = ErrorNone, errorData = [],
         files = map (\<lambda>p. \<lparr>path = p, size_f = 1\<rparr>) ps,
         filesToProcess = [], overrideSendImagesAsPhotos = None\<rparr>),
      PrepareMediaFromImage = (\<lambda>img content.
        \<lparr>error = ErrorNone, errorData = [],
         files = [\<lparr>path = [], size_f = int (length content)\<rparr>],
         filesToProcess = [], overrideSendImagesAsPhotos = None\<rparr>),
      ImagesRead = (\<lambda>content. (NullImage, False)),
      DivideByGroups = (\<lambda>lst way slowmode. [\<lparr>list_g = lst, type_g = AlbumNone\<rparr>]),
      sentWithCaption = (\<lambda>g. length (files (list_g g)) = 1 \<or> type_g g = AlbumPhotoVideo)\<rparr>"

definition hello :: TextWithTags where
  "hello = \<lparr>text_str = ''hello'', tags = []\<rparr>"

definition story7 :: ReplyAreaData where
  "story7 = \<lparr>user = Some 7, id_story = 42\<rparr>"

definition story8 :: ReplyAreaData where
  "story8 = \<lparr>user = Some 8, id_story = 3\<rparr>"

definition replyingTo7 :: ReplyArea where
  "replyingTo7 =
     \<lparr>data = \<lparr>user = Some 7, id_story = 42\<rparr>,
      choosingAttach = False,
      shownUserGuard = 1,
      controls = \<lparr>fieldText = hello, shownHistory = Some (HistoryOf 7), webPage = 0,
                  sendAsPeer = None\<rparr>,
      delayed = [],
      dialogs = [],
      effects = []\<rparr>"

definition dialogOpenFor7 :: ReplyArea where
  "dialogOpenFor7 =
     replyingTo7
       \<lparr>dialogs := [\<lparr>dlg_guard = 1, dlg_override = None, dlg_user = 7\<rparr>],
        effects := [ControlsSetHistory (Some (HistoryOf 7)), ControlsClear,
                    GetOpenPaths AllOrImagesFilter]\<rparr>"

definition tooLargeList :: PreparedList where
  "tooLargeList =
     \<lparr>error = TooLargeFile, errorData = [],
      files = [\<lparr>path = ''/home/user/big.bin'', size_f = 5000000000\<rparr>],
      filesToProcess = [], overrideSendImagesAsPhotos = None\<rparr>"

definition filePayload :: MimeData where
  "filePayload =
     \<lparr>hasImage = False, mimeUrls = [''/home/user/a.png''], mimeImage = NullImage,
      mimeImageContent = [], mimeText = []\<rparr>"

definition draftWithoutUser :: ReplyArea where
  "draftWithoutUser = ReplyArea_new\<lparr>controls := (controls ReplyArea_new)\<lparr>fieldText := hello\<rparr>\<rparr>"


section \<open>What each function leaves alone\<close>

lemma sameMembers_refl [simp]: "sameMembers s s"
  by (simp add: sameMembers_def)

lemma sameMembers_trans: "sameMembers s s1 \<Longrightarrow> sameMembers s1 s2 \<Longrightarrow> sameMembers s s2"
  by (simp add: sameMembers_def)

lemma sameMembers_emit [simp]: "sameMembers s (emit e s') = sameMembers s s'"
  by (simp add: sameMembers_def emit_def)

lemma sameMembers_showToast [simp]: "sameMembers s (showToast t s') = sameMembers s s'"
  by (simp add: showToast_def)

lemma sameMembers_controls_clear [simp]: "sameMembers s (controls_clear s') = sameMembers s s'"
  by (simp add: sameMembers_def controls_clear_def emit_def)

lemma sameMembers_finishSending [simp]: "sameMembers s (finishSending s') = sameMembers s s'"
  by (simp add: finishSending_def)

lemma sameMembers_send: "send env opts s = Inr s' \<Longrightarrow> sameMembers s s'"
  by (auto simp add: send_def Let_def split: sum.splits if_splits)

lemma sameMembers_sendVoice: "sendVoice env v s = Inr s' \<Longrightarrow> sameMembers s s'"
  by (auto simp add: sendVoice_def split: sum.splits)

lemma sameMembers_uploadFile: "uploadFile env c t s = Inr s' \<Longrightarrow> sameMembers s s'"
  by (auto simp add: uploadFile_def split: sum.splits)

lemma sameMembers_showSendingFilesError:
  "showSendingFilesError env lst compress s = Inr (b, s') \<Longrightarrow> sameMembers s s'"
  by (auto simp add: showSendingFilesError_def Let_def split: if_splits list.splits sum.splits)

lemma sameMembers_confirmSendingFiles_list:
  assumes "confirmSendingFiles_list env lst t s = Inr (b, s')"
  shows "sameMembers s s'"
proof (cases "confirmMediaEdit env (controls s) lst")
  case True
  with assms show ?thesis
    by (auto simp add: confirmSendingFiles_list_def)
next
  case False
  show ?thesis
  proof (cases "showSendingFilesError env lst None s")
    case (Inl f)
    with False assms show ?thesis
      by (simp add: confirmSendingFiles_list_def)
  next
    case (Inr p)
    obtain shown s1 where p: "p = (shown, s1)"
      by (cases p)
    with Inr have "sameMembers s s1"
      by (simp add: sameMembers_showSendingFilesError)
    with False Inr p assms show ?thesis
      by (auto simp add: confirmSendingFiles_list_def split: if_splits)
  qed
qed

lemma sameMembers_confirmSendingFiles_image:
  "confirmSendingFiles_image env img c ov t s = Inr (b, s') \<Longrightarrow> sameMembers s s'"
  by (auto simp add: confirmSendingFiles_image_def Let_def split: if_splits
      dest: sameMembers_confirmSendingFiles_list)

lemma sameMembers_sendGroups: "sameMembers s (sendGroups gs t c a s') = sameMembers s s'"
  by (induction gs t c a s' rule: sendGroups.induct) simp_all

lemma sameMembers_sendingFilesConfirmed:
  assumes "sendingFilesConfirmed env lst way c opts cse s = Inr s'"
  shows "sameMembers s s'"
proof (cases "showSendingFilesError env lst (Some (sendImagesAsPhotos way)) s")
  case (Inl f)
  with assms show ?thesis
    by (simp add: sendingFilesConfirmed_def split: if_splits)
next
  case (Inr p)
  obtain shown s1 where p: "p = (shown, s1)"
    by (cases p)
  with Inr have same: "sameMembers s s1"
    by (simp add: sameMembers_showSendingFilesError)
  show ?thesis
  proof (cases shown)
    case True
    with same Inr p assms show ?thesis
      by (simp add: sendingFilesConfirmed_def split: if_splits)
  next
    case False
    with Inr p assms have "sameMembers s1 s'"
      by (auto simp add: sendingFilesConfirmed_def Let_def sameMembers_sendGroups
          split: if_splits sum.splits option.splits)
    with same show ?thesis
      by (rule sameMembers_trans)
  qed
qed

lemma sameMembers_chooseAttachCallback:
  assumes "chooseAttachCallback env ov r s = Inr s'"
  shows "sameMembers s s'"
proof (cases "paths r = [] \<and> remoteContent r = []")
  case True
  with assms show ?thesis
    by (simp add: chooseAttachCallback_def)
next
  case False
  show ?thesis
  proof (cases "remoteContent r = []")
    case True
    with False assms obtain u b where
      "confirmSendingFiles_list env
         ((PrepareMediaList env (paths r) (premium env u))\<lparr>overrideSendImagesAsPhotos := ov\<rparr>)
         [] s = Inr (b, s')"
      by (auto simp add: chooseAttachCallback_def Let_def split: sum.splits)
    then show ?thesis
      by (rule sameMembers_confirmSendingFiles_list)
  next
    case remote: False
    obtain img animated where read: "ImagesRead env (remoteContent r) = (img, animated)"
      by (cases "ImagesRead env (remoteContent r)")
    show ?thesis
    proof (cases "img \<noteq> NullImage \<and> \<not> animated")
      case True
      with remote read assms obtain b where
        "confirmSendingFiles_image env img (remoteContent r) ov [] s = Inr (b, s')"
        by (auto simp add: chooseAttachCallback_def split: sum.splits)
      then show ?thesis
        by (rule sameMembers_confirmSendingFiles_image)
    next
      case False
      with remote read assms have "uploadFile env (remoteContent r) File s = Inr s'"
        by (auto simp add: chooseAttachCallback_def)
      then show ?thesis
        by (rule sameMembers_uploadFile)
    qed
  qed
qed

section \<open>Invariants of the event loop\<close>

lemma dialogFinished_members:
  assumes "dialogFinished env i r s = Inr s'"
  shows "data s' = data s \<and> choosingAttach s' = choosingAttach s
     \<and> shownUserGuard s' = shownUserGuard s \<and> delayed s' = delayed s
     \<and> set (dialogs s') \<subseteq> set (dialogs s)"
proof (cases "i < length (dialogs s)")
  case False
  with assms show ?thesis
    by (simp add: dialogFinished_def)
next
  case True
  define s1 where "s1 = s\<lparr>dialogs := take i (dialogs s) @ drop (Suc i) (dialogs s)\<rparr>"
  have sub: "set (dialogs s1) \<subseteq> set (dialogs s)"
    using set_take_subset [of i "dialogs s"] set_drop_subset [of "Suc i" "dialogs s"]
    by (auto simp add: s1_def)
  have "sameMembers s1 s'"
  proof (cases "dlg_guard (dialogs s ! i) = shownUserGuard s")
    case True
    with \<open>i < length (dialogs s)\<close> assms
    have "chooseAttachCallback env (dlg_override (dialogs s ! i)) r s1 = Inr s'"
      by (simp add: dialogFinished_def Let_def s1_def)
    then show ?thesis
      by (rule sameMembers_chooseAttachCallback)
  next
    case False
    with \<open>i < length (dialogs s)\<close> assms have "s' = s1"
      by (simp add: dialogFinished_def Let_def s1_def)
    then show ?thesis
      by simp
  qed
  with sub show ?thesis
    by (simp add: sameMembers_def s1_def)
qed

lemma show_data_members:
  "choosingAttach (show_data d s) = choosingAttach s
   \<and> delayed (show_data d s) = delayed s
   \<and> dialogs (show_data d s) = dialogs s
   \<and> data (show_data d s) = d
   \<and> shownUserGuard (show_data d s)
       = (if user d = user (data s) then shownUserGuard s else Suc (shownUserGuard s))"
  by (auto simp add: show_data_def controls_clear_def controls_setHistory_def
      invalidate_weak_ptrs_def emit_def Let_def)

lemma step_sameMembers:
  assumes "step env e s = Inr s'"
      and "e \<noteq> DelayedCall"
      and "\<forall>ov. e \<noteq> AttachRequest ov"
      and "\<forall>d. e \<noteq> Show d"
      and "\<forall>i r. e \<noteq> DialogFinished i r"
  shows "sameMembers s s'"
proof (cases e)
  case (SendRequest opts)
  with assms(1) show ?thesis by (simp add: sameMembers_send)
next
  case (SendVoiceRequest v)
  with assms(1) show ?thesis by (simp add: sameMembers_sendVoice)
next
  case CancelRequest
  with assms(1) show ?thesis by (auto simp add: cancelRequests_def)
next
  case (FileChosenEvent d)
  with assms(1) show ?thesis by (auto simp add: fileChosen_def)
next
  case (PhotoChosenEvent c)
  with assms(1) show ?thesis by (auto simp add: photoChosen_def)
next
  case (InlineResultChosenEvent c)
  with assms(1) show ?thesis by (auto simp add: inlineResultChosen_def)
next
  case (MimeDataEvent d act)
  with assms(1) show ?thesis by (cases act) (auto simp add: mimeDataHook_def)
next
  case (FilesConfirmed lst way caption opts cse)
  with assms(1) show ?thesis by (simp add: sameMembers_sendingFilesConfirmed)
next
  case (FieldEdited t)
  with assms(1) show ?thesis by (auto simp add: sameMembers_def)
qed (use assms in simp_all)

text \<open>Only an accepted attach request and a delayed call touch the flag and the queue.\<close>

lemma step_flag_delayed:
  assumes "step env e s = Inr s'"
      and "e \<noteq> DelayedCall"
      and "\<forall>ov. e \<noteq> AttachRequest ov"
  shows "choosingAttach s' = choosingAttach s \<and> delayed s' = delayed s"
proof (cases e)
  case (Show d)
  with assms(1) show ?thesis by (auto simp add: show_data_members)
next
  case (DialogFinished i r)
  with assms(1) show ?thesis by (auto dest: dialogFinished_members)
qed (use assms step_sameMembers [of env e s s'] in \<open>simp_all add: sameMembers_def\<close>)

lemma step_pendingOk:
  assumes "step env e s = Inr s'" and "pendingOk s"
  shows "pendingOk s'"
proof (cases e)
  case (AttachRequest ov)
  with assms show ?thesis
    by (auto simp add: attachRequests_def pendingOk_def)
next
  case DelayedCall
  with assms show ?thesis
    by (auto simp add: delayedCall_def chooseAttach_def showToast_def emit_def Let_def pendingOk_def
        split: list.splits option.splits)
qed (use assms step_flag_delayed [of env e s s'] in \<open>simp_all add: pendingOk_def\<close>)

lemma run_pendingOk:
  "run env evs s = Inr s' \<Longrightarrow> pendingOk s \<Longrightarrow> pendingOk s'"
proof (induction evs arbitrary: s)
  case Nil
  then show ?case by simp
next
  case (Cons e evs)
  then show ?case
    by (auto split: sum.splits dest: step_pendingOk)
qed

lemma pendingOk_new: "pendingOk ReplyArea_new"
  by (simp add: pendingOk_def ReplyArea_new_def)

text \<open>While the flag is set and no delayed call runs, the flag and the queue stay.\<close>

lemma run_keeps_pending:
  "run env evs s = Inr s' \<Longrightarrow> choosingAttach s \<Longrightarrow> DelayedCall \<notin> set evs
   \<Longrightarrow> choosingAttach s' \<and> delayed s' = delayed s"
proof (induction evs arbitrary: s)
  case Nil
  then show ?case by simp
next
  case (Cons e evs)
  from Cons.prems obtain s1 where s1: "step env e s = Inr s1" "run env evs s1 = Inr s'"
    by (auto split: sum.splits)
  have "choosingAttach s1 \<and> delayed s1 = delayed s"
  proof (cases "\<exists>ov. e = AttachRequest ov")
    case True
    with s1(1) Cons.prems(2) show ?thesis
      by (auto simp add: attachRequests_def)
  next
    case False
    with s1(1) Cons.prems(2,3) step_flag_delayed [of env e s s1] show ?thesis
      by auto
  qed
  with Cons.IH [OF s1(2)] Cons.prems(3) show ?case
    by simp
qed

text \<open>With the flag set and nothing scheduled, no event changes either.\<close>

lemma run_stuck:
  "run env evs s = Inr s' \<Longrightarrow> choosingAttach s \<Longrightarrow> delayed s = []
   \<Longrightarrow> choosingAttach s' \<and> delayed s' = []"
proof (induction evs arbitrary: s)
  case Nil
  then show ?case by simp
next
  case (Cons e evs)
  from Cons.prems obtain s1 where s1: "step env e s = Inr s1" "run env evs s1 = Inr s'"
    by (auto split: sum.splits)
  have "choosingAttach s1 \<and> delayed s1 = []"
  proof (cases "e = DelayedCall \<or> (\<exists>ov. e = AttachRequest ov)")
    case True
    with s1(1) Cons.prems(2,3) show ?thesis
      by (auto simp add: attachRequests_def delayedCall_def)
  next
    case False
    with s1(1) Cons.prems(2,3) step_flag_delayed [of env e s s1] show ?thesis
      by auto
  qed
  with Cons.IH [OF s1(2)] show ?case
    by simp
qed

lemma delayedCall_members:
  "data (delayedCall env s) = data s \<and> shownUserGuard (delayedCall env s) = shownUserGuard s
   \<and> (dialogs (delayedCall env s) = dialogs s
      \<or> (\<exists>ov u. user (data s) = Some u
           \<and> dialogs (delayedCall env s)
              = dialogs s @ [\<lparr>dlg_guard = shownUserGuard s, dlg_override = ov, dlg_user = u\<rparr>]))"
  by (auto simp add: delayedCall_def chooseAttach_def showToast_def emit_def Let_def
      split: list.splits option.splits)

lemma step_guardsOk:
  assumes "step env e s = Inr s'" and "guardsOk s"
  shows "guardsOk s'"
proof (cases e)
  case (AttachRequest ov)
  with assms show ?thesis
    by (auto simp add: attachRequests_def guardsOk_def)
next
  case DelayedCall
  with assms(1) have s': "s' = delayedCall env s"
    by simp
  from delayedCall_members [of env s] assms(2) show ?thesis
    unfolding s' guardsOk_def by auto
next
  case (Show d)
  with assms(1) have s': "s' = show_data d s"
    by simp
  from show_data_members [of d s] assms(2) show ?thesis
    unfolding s' guardsOk_def list_all_iff by (auto simp add: less_Suc_eq)
next
  case (DialogFinished i r)
  with assms(1) have "dialogFinished env i r s = Inr s'"
    by simp
  from dialogFinished_members [OF this] assms(2) show ?thesis
    unfolding guardsOk_def list_all_iff by auto
qed (use assms step_sameMembers [of env e s s'] in \<open>simp_all add: sameMembers_def guardsOk_def\<close>)

lemma run_guardsOk:
  "run env evs s = Inr s' \<Longrightarrow> guardsOk s \<Longrightarrow> guardsOk s'"
proof (induction evs arbitrary: s)
  case Nil
  then show ?case by simp
next
  case (Cons e evs)
  then show ?case
    by (auto split: sum.splits dest: step_guardsOk)
qed

lemma guardsOk_new: "guardsOk ReplyArea_new"
  by (simp add: guardsOk_def ReplyArea_new_def)

lemma step_guard_mono:
  assumes "step env e s = Inr s'"
  shows "shownUserGuard s \<le> shownUserGuard s'"
proof (cases e)
  case (AttachRequest ov)
  with assms show ?thesis
    by (auto simp add: attachRequests_def)
next
  case DelayedCall
  with assms delayedCall_members [of env s] show ?thesis
    by auto
next
  case (Show d)
  with assms show_data_members [of d s] show ?thesis
    by auto
next
  case (DialogFinished i r)
  with assms show ?thesis
    by (auto dest: dialogFinished_members)
qed (use assms step_sameMembers [of env e s s'] in \<open>simp_all add: sameMembers_def\<close>)

lemma run_guard_mono:
  "run env evs s = Inr s' \<Longrightarrow> shownUserGuard s \<le> shownUserGuard s'"
proof (induction evs arbitrary: s)
  case Nil
  then show ?case by simp
next
  case (Cons e evs)
  from Cons.prems obtain s1 where s1: "step env e s = Inr s1" "run env evs s1 = Inr s'"
    by (auto split: sum.splits)
  from step_guard_mono [OF s1(1)] Cons.IH [OF s1(2)] show ?case
    by simp
qed

lemma dialogFinished_dead:
  "i < length (dialogs s) \<Longrightarrow> dlg_guard (dialogs s ! i) \<noteq> shownUserGuard s
   \<Longrightarrow> dialogFinished env i r s
       = Inr (s\<lparr>dialogs := take i (dialogs s) @ drop (Suc i) (dialogs s)\<rparr>)"
  by (simp add: dialogFinished_def Let_def)

section \<open>Properties\<close>

subsection \<open>Sending the composed text\<close>

lemma replyingTo7_reachable:
  "run env [Show story7, FieldEdited hello] ReplyArea_new
     = Inr (replyingTo7\<lparr>effects := [ControlsSetHistory (Some (HistoryOf 7)), ControlsClear]\<rparr>)"
  by (simp add: replyingTo7_def story7_def ReplyArea_new_def show_data_def controls_clear_def
      controls_setHistory_def invalidate_weak_ptrs_def emit_def Let_def)

text \<open>The paths that do stop at an error: \<^verbatim>\<open>sendingFilesConfirmed\<close> returns when
  \<^verbatim>\<open>showSendingFilesError\<close> has shown one, with nothing but that notification done, and
  \<^verbatim>\<open>chooseAttach\<close> returns after the toast, opening no dialog.\<close>

lemma sendingFilesConfirmed_stops_at_error:
  "filesToProcess lst = []
   \<Longrightarrow> showSendingFilesError env lst (Some (sendImagesAsPhotos way)) s = Inr (True, s1)
   \<Longrightarrow> sendingFilesConfirmed env lst way caption opts cse s = Inr s1"
  by (simp add: sendingFilesConfirmed_def)

lemma chooseAttach_stops_at_error:
  "user (data s) = Some u \<Longrightarrow> AnyFileRestrictionError env u = Some e
   \<Longrightarrow> chooseAttach env ov s = showToast e (s\<lparr>choosingAttach := False\<rparr>)"
  by (simp add: chooseAttach_def)

text \<open>C1. Every send-like operation is to show the error of its check and abort, handing
  nothing to the session API. \<^verbatim>\<open>send\<close> does not: with a user set and a check that answers
  ``Slow mode is enabled.'', it shows the toast and then, having no \<^verbatim>\<open>return\<close> there,
  hands the message to the session API, clears the input and restores the focus.\<close>

theorem send_shows_error_and_still_sends:
  "send (demoCollaborators ''Slow mode is enabled.'' None None) defaultSendOptions replyingTo7
     = Inr (replyingTo7
        \<lparr>controls := (controls replyingTo7)\<lparr>fieldText := emptyText\<rparr>,
         effects :=
           [ShowToast ''Slow mode is enabled.'',
            ApiSendMessage
              \<lparr>action = \<lparr>history = HistoryOf 7, options = defaultSendOptions,
                         replyTo = \<lparr>storyId = \<lparr>peer = 1007, story = 42\<rparr>\<rparr>, clearDraft = True\<rparr>,
               textWithTags = hello, webPageId = 0\<rparr>,
            ControlsClear, ControlsHidePanelsAnimated, WrapSetFocus]\<rparr>)"
  by (simp add: send_def prepareSendAction_def newSendAction_def session_def finishSending_def
      controls_clear_def showToast_def emit_def Let_def replyingTo7_def demoCollaborators_def
      defaultSendOptions_def)

text \<open>C8. With a current user set, \<^verbatim>\<open>send\<close> builds a send action that targets the history
  of that user and replies to the current story (\<^verbatim>\<open>replyTo.storyId\<close> is the user's id and
  the story id), hands the message with the composed text to the session API, then clears
  the input widget, hides the panels and gives the focus to the viewer wrap. A toast comes
  first when the check has an error; the message is sent all the same.\<close>

theorem send_replies_to_story:
  assumes "user (data s) = Some u"
  shows "\<exists>act msg toast s'.
     prepareSendAction env s opts = Inr act
     \<and> history act = HistoryOf u
     \<and> storyId (replyTo act) = \<lparr>peer = peerIdOf env u, story = id_story (data s)\<rparr>
     \<and> msg = \<lparr>action = act, textWithTags = getTextWithAppliedMarkdown env (controls s),
              webPageId = webPage (controls s)\<rparr>
     \<and> toast = (if GetErrorTextForSending env (Some u) (textWithTags msg) (scheduled opts \<noteq> 0) = []
               then []
               else [ShowToast (GetErrorTextForSending env (Some u) (textWithTags msg)
                       (scheduled opts \<noteq> 0))])
     \<and> send env opts s = Inr s'
     \<and> effects s' = effects s @ toast
          @ [ApiSendMessage msg, ControlsClear, ControlsHidePanelsAnimated, WrapSetFocus]
     \<and> fieldText (controls s') = emptyText
     \<and> data s' = data s"
  using assms
  by (simp add: send_def prepareSendAction_def newSendAction_def session_def finishSending_def
      controls_clear_def showToast_def emit_def Let_def)

theorem send_replies_to_story_witness:
  "user (data replyingTo7) = Some 7
   \<and> (\<exists>s'. send (demoCollaborators [] None None) defaultSendOptions replyingTo7 = Inr s'
        \<and> effects s' =
            [ApiSendMessage
               \<lparr>action = \<lparr>history = HistoryOf 7, options = defaultSendOptions,
                          replyTo = \<lparr>storyId = \<lparr>peer = 1007, story = 42\<rparr>\<rparr>, clearDraft = True\<rparr>,
                textWithTags = hello, webPageId = 0\<rparr>,
             ControlsClear, ControlsHidePanelsAnimated, WrapSetFocus])"
  using send_replies_to_story [of replyingTo7 7 "demoCollaborators [] None None" defaultSendOptions]
  by (auto simp add: replyingTo7_def demoCollaborators_def defaultSendOptions_def
      prepareSendAction_def newSendAction_def Let_def)

subsection \<open>Items picked in the compose controls, and mime data\<close>

text \<open>C2, as amended. A sticker or GIF picked in the compose controls only hides the layer;
  a picked photo and a picked inline result do nothing. None of the three hands anything to
  the session API.\<close>

theorem chosen_items_are_not_sent:
  "fileChosen d s = emit HideLayer s
   \<and> photoChosen p s = s
   \<and> inlineResultChosen c s = s
   \<and> filter isApiCall (effects (fileChosen d s)) = filter isApiCall (effects s)
   \<and> filter isApiCall (effects (photoChosen p s)) = filter isApiCall (effects s)
   \<and> filter isApiCall (effects (inlineResultChosen c s)) = filter isApiCall (effects s)"
  by (simp add: fileChosen_def photoChosen_def inlineResultChosen_def emit_def)

text \<open>Picked while replying to user 7: nothing is sent.\<close>

theorem chosen_sticker_not_forwarded:
  "filter isApiCall (effects (fileChosen \<lparr>document = 5, options_fc = defaultSendOptions\<rparr> replyingTo7)) = []
   \<and> filter isApiCall (effects (photoChosen \<lparr>photo = 5, options_pc = defaultSendOptions\<rparr> replyingTo7)) = []
   \<and> filter isApiCall (effects (inlineResultChosen
        \<lparr>result_ic = 5, bot = 9, options_ic = defaultSendOptions\<rparr> replyingTo7)) = []"
  by (simp add: fileChosen_def photoChosen_def inlineResultChosen_def emit_def replyingTo7_def)

text \<open>C3, as amended. The mime-data hook answers false to \<^verbatim>\<open>Check\<close> and to \<^verbatim>\<open>Insert\<close>,
  whatever the payload, and does nothing else: it does not look for sendable files and
  does not start the confirmation of sending files.\<close>

theorem mimeDataHook_declines:
  "mimeDataHook d act s = Inr (False, s)"
  by (cases act) (simp_all add: mimeDataHook_def)

text \<open>A payload with one local file: \<^verbatim>\<open>confirmSendingFiles\<close> would open the send-files
  box and answer true; the hook answers false twice and opens nothing.\<close>

theorem mimeDataHook_ignores_files:
  "mimeUrls filePayload \<noteq> []
   \<and> error (PrepareMediaList (demoCollaborators [] None None) (mimeUrls filePayload) False) = ErrorNone
   \<and> mimeDataHook filePayload Check replyingTo7 = Inr (False, replyingTo7)
   \<and> mimeDataHook filePayload Insert replyingTo7 = Inr (False, replyingTo7)
   \<and> confirmSendingFiles_mime (demoCollaborators [] None None) filePayload None
        (mimeText filePayload) replyingTo7
      = Inr (True, replyingTo7\<lparr>effects :=
          [ShowSendFilesBox
             \<lparr>error = ErrorNone, errorData = [],
              files = [\<lparr>path = ''/home/user/a.png'', size_f = 1\<rparr>],
              filesToProcess = [], overrideSendImagesAsPhotos = None\<rparr> hello []]\<rparr>)"
  by (simp add: mimeDataHook_def confirmSendingFiles_mime_def confirmSendingFiles_list_def
      showSendingFilesError_def sendingFilesErrorText_def session_def emit_def Let_def
      filePayload_def replyingTo7_def demoCollaborators_def)

subsection \<open>Showing another story\<close>

text \<open>C4, as amended. \<^verbatim>\<open>show(data)\<close> with a record that differs from the stored one
  replaces the stored record by it. When the user changes, the weak handle is invalidated,
  the history of the compose controls is set to the history of the new user (null when
  there is none) and the input widget is cleared. When the user stays and there is one,
  only the input widget is cleared; the history is not set again. When there is no user
  before and after, nothing but the stored record changes.\<close>

theorem show_other_data:
  assumes "data s \<noteq> d"
  shows "data (show_data d s) = d
   \<and> (if user d \<noteq> user (data s) then
        show_data d s = s\<lparr>data := d, shownUserGuard := Suc (shownUserGuard s),
          controls := (controls s)\<lparr>shownHistory := map_option HistoryOf (user d),
                                    fieldText := emptyText\<rparr>,
          effects := effects s @ [ControlsSetHistory (map_option HistoryOf (user d)), ControlsClear]\<rparr>
      else if user d \<noteq> None then
        show_data d s = s\<lparr>data := d,
          controls := (controls s)\<lparr>fieldText := emptyText\<rparr>,
          effects := effects s @ [ControlsClear]\<rparr>
      else show_data d s = s\<lparr>data := d\<rparr>)"
  using assms
  by (cases "user d")
     (auto simp add: show_data_def controls_clear_def controls_setHistory_def
        invalidate_weak_ptrs_def emit_def Let_def)

theorem show_other_data_witness:
  "data replyingTo7 \<noteq> \<lparr>user = Some 8, id_story = 3\<rparr>
   \<and> data (show_data \<lparr>user = Some 8, id_story = 3\<rparr> replyingTo7) = \<lparr>user = Some 8, id_story = 3\<rparr>
   \<and> shownHistory (controls (show_data \<lparr>user = Some 8, id_story = 3\<rparr> replyingTo7))
       = Some (HistoryOf 8)
   \<and> fieldText (controls (show_data \<lparr>user = Some 8, id_story = 3\<rparr> replyingTo7)) = emptyText
   \<and> shownUserGuard (show_data \<lparr>user = Some 8, id_story = 3\<rparr> replyingTo7) = 2"
  using show_other_data [of replyingTo7 "\<lparr>user = Some 8, id_story = 3\<rparr>"]
  by (simp add: replyingTo7_def)

text \<open>Without a user, another story id leaves the typed text in the input widget.\<close>

theorem show_keeps_text_without_user:
  "data draftWithoutUser \<noteq> \<lparr>user = None, id_story = 1\<rparr>
   \<and> show_data \<lparr>user = None, id_story = 1\<rparr> draftWithoutUser
       = draftWithoutUser\<lparr>data := \<lparr>user = None, id_story = 1\<rparr>\<rparr>
   \<and> fieldText (controls (show_data \<lparr>user = None, id_story = 1\<rparr> draftWithoutUser)) = hello
   \<and> hello \<noteq> emptyText
   \<and> effects (show_data \<lparr>user = None, id_story = 1\<rparr> draftWithoutUser) = []"
  by (simp add: show_data_def draftWithoutUser_def ReplyArea_new_def hello_def emptyText_def Let_def)

text \<open>C10. Calling \<^verbatim>\<open>show(data)\<close> with the record that is already stored changes nothing:
  the stored record, the input text and the history of the compose controls, and the
  generation of the weak handle \<^verbatim>\<open>_shownUserGuard\<close> are what they were; indeed the whole
  state is, and no collaborator is called.\<close>

theorem show_same_data_noop:
  "show_data (data s) s = s
   \<and> data (show_data (data s) s) = data s
   \<and> fieldText (controls (show_data (data s) s)) = fieldText (controls s)
   \<and> shownHistory (controls (show_data (data s) s)) = shownHistory (controls s)
   \<and> shownUserGuard (show_data (data s) s) = shownUserGuard s
   \<and> effects (show_data (data s) s) = effects s"
  by (simp add: show_data_def)

subsection \<open>Errors of a prepared list of files\<close>

text \<open>Without a user the restriction check is not reached: the call fails.\<close>

lemma showSendingFilesError_without_user:
  "user (data s) = None \<Longrightarrow> showSendingFilesError env lst compress s = Inl ExpectsFailed"
  by (simp add: showSendingFilesError_def sendingFilesErrorText_def)

text \<open>C7, as amended. Let there be a current user, let the text of a restriction error and
  the ``empty file'' text be non-empty and different from the marker \<^verbatim>\<open>(toolarge)\<close>, and
  let a list whose error is \<^verbatim>\<open>TooLargeFile\<close> have a file. Then
  \<^verbatim>\<open>showSendingFilesError\<close> returns false, showing nothing, exactly when there is no
  restriction error and the error of the list is \<^verbatim>\<open>None\<close>. Otherwise it returns true
  after exactly one notification: a toast with the restriction text when there is a
  restriction error, whatever the error of the list; without one, the file-size-limit box
  for the size of the last file when the error of the list is \<^verbatim>\<open>TooLargeFile\<close>, and a
  toast with the ``empty file'' text for the other errors of the list.\<close>

theorem showSendingFilesError_notifies_once:
  assumes "user (data s) = Some u"
      and "\<forall>e. FileRestrictionError env u lst compress = Some e
             \<longrightarrow> e \<noteq> [] \<and> e \<noteq> ''(toolarge)''"
      and "lng_send_image_empty env (errorData lst) \<noteq> []
           \<and> lng_send_image_empty env (errorData lst) \<noteq> ''(toolarge)''"
      and "FileRestrictionError env u lst compress = None \<and> error lst = TooLargeFile
             \<longrightarrow> files lst \<noteq> []"
  shows "\<exists>shown s'.
     showSendingFilesError env lst compress s = Inr (shown, s')
     \<and> (\<not> shown \<longleftrightarrow>
          FileRestrictionError env u lst compress = None \<and> error lst = ErrorNone)
     \<and> (if shown then
          s' = emit
            (case FileRestrictionError env u lst compress of
               Some e \<Rightarrow> ShowToast e
             | None \<Rightarrow>
                 if error lst = TooLargeFile
                 then ShowFileSizeLimitBox (size_f (last (files lst)))
                 else ShowToast (lng_send_image_empty env (errorData lst))) s
        else s' = s)"
proof (cases "FileRestrictionError env u lst compress")
  case (Some e)
  with assms(2) have "e \<noteq> []" "e \<noteq> ''(toolarge)''" by auto
  with Some assms(1) show ?thesis
    by (auto simp add: showSendingFilesError_def sendingFilesErrorText_def showToast_def)
next
  case None
  show ?thesis
  proof (cases "error lst")
    case TooLargeFile
    with None assms(4) obtain f fs where "files lst = f # fs"
      by (cases "files lst") auto
    with None TooLargeFile assms(1) show ?thesis
      by (auto simp add: showSendingFilesError_def sendingFilesErrorText_def session_def Let_def)
  qed (use None assms(1,3) in
        \<open>auto simp add: showSendingFilesError_def sendingFilesErrorText_def showToast_def\<close>)
qed

theorem showSendingFilesError_notifies_once_witness:
  "showSendingFilesError (demoCollaborators [] None None) tooLargeList None replyingTo7
     = Inr (True, replyingTo7\<lparr>effects := [ShowFileSizeLimitBox 5000000000]\<rparr>)
   \<and> showSendingFilesError
        (demoCollaborators [] (Some ''Sending files is not allowed here.'') None)
        (tooLargeList\<lparr>error := ErrorNone\<rparr>) (Some True) replyingTo7
      = Inr (True, replyingTo7\<lparr>effects := [ShowToast ''Sending files is not allowed here.'']\<rparr>)
   \<and> showSendingFilesError (demoCollaborators [] None None)
        (tooLargeList\<lparr>error := ErrorNone\<rparr>) (Some True) replyingTo7
      = Inr (False, replyingTo7)"
  using showSendingFilesError_notifies_once
    [of replyingTo7 7 "demoCollaborators [] None None" tooLargeList None]
    showSendingFilesError_notifies_once
    [of replyingTo7 7 "demoCollaborators [] (Some ''Sending files is not allowed here.'') None"
        "tooLargeList\<lparr>error := ErrorNone\<rparr>" "Some True"]
    showSendingFilesError_notifies_once
    [of replyingTo7 7 "demoCollaborators [] None None"
        "tooLargeList\<lparr>error := ErrorNone\<rparr>" "Some True"]
  by (auto simp add: demoCollaborators_def tooLargeList_def replyingTo7_def emit_def)

text \<open>A too large file for a recipient with a restriction: a toast, and no box.\<close>

theorem restriction_toast_for_too_large_file:
  "error tooLargeList = TooLargeFile
   \<and> showSendingFilesError (demoCollaborators [] (Some ''Sending files is not allowed here.'') None)
        tooLargeList None replyingTo7
      = Inr (True, replyingTo7\<lparr>effects := [ShowToast ''Sending files is not allowed here.'']\<rparr>)"
  by (simp add: showSendingFilesError_def sendingFilesErrorText_def showToast_def emit_def Let_def
      demoCollaborators_def tooLargeList_def replyingTo7_def)

subsection \<open>The flag \<^verbatim>\<open>_choosingAttach\<close>\<close>

text \<open>What holds of the flag: at most one \<^verbatim>\<open>chooseAttach\<close> call is scheduled at any
  time, and the flag is set while one is; \<^verbatim>\<open>chooseAttach\<close> with a user resets it.\<close>

lemma at_most_one_scheduled_call:
  assumes "run env evs ReplyArea_new = Inr s"
  shows "length (delayed s) \<le> 1 \<and> (delayed s = [] \<or> choosingAttach s)"
proof -
  from assms have "pendingOk s"
    by (rule run_pendingOk) (rule pendingOk_new)
  then show ?thesis
    by (auto simp add: pendingOk_def)
qed

lemma chooseAttach_resets_flag:
  "user (data s) = Some u \<Longrightarrow> \<not> choosingAttach (chooseAttach env ov s)"
  by (simp add: chooseAttach_def showToast_def emit_def Let_def split: option.splits)

text \<open>C5. The flag is to be reset when the delayed \<^verbatim>\<open>chooseAttach\<close> call runs. It is not
  when that call finds no user: \<^verbatim>\<open>chooseAttach\<close> returns before the reset. Here an attach
  request is accepted in the new object, the delayed call runs, then a story of user 7 is
  shown and attach is requested again: the flag is still set, the request is dropped, no
  call is scheduled and no file dialog is asked for.\<close>

theorem attach_flag_stuck_without_user:
  "run (demoCollaborators [] None None)
     [AttachRequest None, DelayedCall, Show \<lparr>user = Some 7, id_story = 42\<rparr>,
      AttachRequest None, DelayedCall] ReplyArea_new
   = Inr (ReplyArea_new
      \<lparr>data := \<lparr>user = Some 7, id_story = 42\<rparr>,
       choosingAttach := True,
       shownUserGuard := 1,
       controls := (controls ReplyArea_new)\<lparr>shownHistory := Some (HistoryOf 7)\<rparr>,
       effects := [ControlsSetHistory (Some (HistoryOf 7)), ControlsClear]\<rparr>)"
  by (simp add: attachRequests_def delayedCall_def chooseAttach_def show_data_def
      controls_clear_def controls_setHistory_def invalidate_weak_ptrs_def emit_def Let_def
      ReplyArea_new_def emptyText_def)

text \<open>C9. An attach request is accepted, setting the flag; then, after any events but a
  delayed call, the delayed \<^verbatim>\<open>chooseAttach\<close> call runs while there is no user. It returns
  before resetting the flag. From then on, whatever happens, the flag stays set, nothing
  is scheduled, and every attach request is filtered out.\<close>

theorem attach_blocked_after_chooseAttach_without_user:
  assumes "run env evs0 ReplyArea_new = Inr s0"
      and "\<not> choosingAttach s0"
      and "run env evs1 (attachRequests ov s0) = Inr s1"
      and "DelayedCall \<notin> set evs1"
      and "user (data s1) = None"
      and "run env evs2 (delayedCall env s1) = Inr s2"
  shows "choosingAttach (attachRequests ov s0)
     \<and> delayed (attachRequests ov s0) = [ov]
     \<and> delayedCall env s1 = chooseAttach env ov (s1\<lparr>delayed := []\<rparr>)
     \<and> choosingAttach (delayedCall env s1)
     \<and> choosingAttach s2
     \<and> delayed s2 = []
     \<and> attachRequests ov' s2 = s2"
proof -
  from assms(1) have "pendingOk s0"
    by (rule run_pendingOk) (rule pendingOk_new)
  with assms(2) have accepted:
    "choosingAttach (attachRequests ov s0)" "delayed (attachRequests ov s0) = [ov]"
    by (simp_all add: pendingOk_def attachRequests_def)
  from run_keeps_pending [OF assms(3) accepted(1) assms(4)] accepted(2)
  have s1: "choosingAttach s1" "delayed s1 = [ov]"
    by simp_all
  from s1 assms(5) have dc: "delayedCall env s1 = s1\<lparr>delayed := []\<rparr>"
    "delayedCall env s1 = chooseAttach env ov (s1\<lparr>delayed := []\<rparr>)"
    by (simp_all add: delayedCall_def chooseAttach_def)
  with s1 have stuck: "choosingAttach (delayedCall env s1)" "delayed (delayedCall env s1) = []"
    by simp_all
  from run_stuck [OF assms(6) stuck] have "choosingAttach s2" "delayed s2 = []"
    by simp_all
  with accepted dc(2) stuck(1) show ?thesis
    by (simp add: attachRequests_def)
qed

theorem attach_blocked_after_chooseAttach_without_user_witness:
  "\<not> choosingAttach ReplyArea_new
   \<and> user (data (attachRequests None ReplyArea_new)) = None
   \<and> choosingAttach
       (show_data story7 (delayedCall (demoCollaborators [] None None)
          (attachRequests None ReplyArea_new)))
   \<and> attachRequests (Some True)
       (show_data story7 (delayedCall (demoCollaborators [] None None)
          (attachRequests None ReplyArea_new)))
     = show_data story7 (delayedCall (demoCollaborators [] None None)
          (attachRequests None ReplyArea_new))"
proof -
  let ?env = "demoCollaborators [] None None"
  have reach: "run ?env [] ReplyArea_new = Inr ReplyArea_new"
    by simp
  have free: "\<not> choosingAttach ReplyArea_new"
    by (simp add: ReplyArea_new_def)
  have between: "run ?env [] (attachRequests None ReplyArea_new)
      = Inr (attachRequests None ReplyArea_new)"
    by simp
  have quiet: "DelayedCall \<notin> set []"
    by simp
  have nobody: "user (data (attachRequests None ReplyArea_new)) = None"
    by (simp add: attachRequests_def ReplyArea_new_def)
  have after: "run ?env [Show story7] (delayedCall ?env (attachRequests None ReplyArea_new))
      = Inr (show_data story7 (delayedCall ?env (attachRequests None ReplyArea_new)))"
    by simp
  from attach_blocked_after_chooseAttach_without_user
    [OF reach free between quiet nobody after, of "Some True"] free nobody
  show ?thesis
    by blast
qed

subsection \<open>The weak handle \<^verbatim>\<open>_shownUserGuard\<close>\<close>

text \<open>C6. In every state the object can reach: \<^verbatim>\<open>show(data)\<close> invalidates the weak handle
  exactly when the user changes; an open file dialog whose handle is still valid was
  requested under the current user; the callback of a dialog whose handle is no longer
  valid does not run, the dialog is only forgotten; and once \<^verbatim>\<open>show\<close> has switched to
  another user, the handle of every dialog open at that moment stays invalid whatever
  happens later, also when the first user is shown again.\<close>

theorem dialog_callback_dead_after_user_change:
  assumes "run env evs ReplyArea_new = Inr s"
  shows "(shownUserGuard (show_data d s) \<noteq> shownUserGuard s \<longleftrightarrow> user d \<noteq> user (data s))
     \<and> (\<forall>i < length (dialogs s).
          (dlg_guard (dialogs s ! i) = shownUserGuard s
             \<longrightarrow> user (data s) = Some (dlg_user (dialogs s ! i)))
          \<and> (dlg_guard (dialogs s ! i) \<noteq> shownUserGuard s
             \<longrightarrow> dialogFinished env i r s
                 = Inr (s\<lparr>dialogs := take i (dialogs s) @ drop (Suc i) (dialogs s)\<rparr>))
          \<and> (\<forall>evs' s'. user d \<noteq> user (data s) \<longrightarrow> run env evs' (show_data d s) = Inr s'
                \<longrightarrow> dlg_guard (dialogs s ! i) < shownUserGuard s'))"
proof -
  from assms have ok: "guardsOk s"
    by (rule run_guardsOk) (rule guardsOk_new)
  have a: "shownUserGuard (show_data d s) \<noteq> shownUserGuard s \<longleftrightarrow> user d \<noteq> user (data s)"
    using show_data_members [of d s] by auto
  have b: "dlg_guard (dialogs s ! i) = shownUserGuard s
      \<longrightarrow> user (data s) = Some (dlg_user (dialogs s ! i))"
    and le: "dlg_guard (dialogs s ! i) \<le> shownUserGuard s"
    if "i < length (dialogs s)" for i
    using ok that unfolding guardsOk_def list_all_length by auto
  have c: "dlg_guard (dialogs s ! i) < shownUserGuard s'"
    if "i < length (dialogs s)" "user d \<noteq> user (data s)" "run env evs' (show_data d s) = Inr s'"
    for i evs' s'
  proof -
    from that(2) show_data_members [of d s]
    have "shownUserGuard (show_data d s) = Suc (shownUserGuard s)"
      by auto
    with run_guard_mono [OF that(3)] le [OF that(1)] show ?thesis
      by simp
  qed
  from a b c show ?thesis
    by (auto simp add: dialogFinished_dead)
qed

lemma dialogOpenFor7_reachable:
  "run (demoCollaborators [] None None)
     [Show story7, FieldEdited hello, AttachRequest None, DelayedCall] ReplyArea_new
   = Inr dialogOpenFor7"
  by (simp add: dialogOpenFor7_def replyingTo7_def story7_def hello_def ReplyArea_new_def
      show_data_def controls_clear_def controls_setHistory_def invalidate_weak_ptrs_def
      attachRequests_def delayedCall_def chooseAttach_def emit_def Let_def
      demoCollaborators_def)

theorem dialog_callback_dead_after_user_change_witness:
  "user story8 \<noteq> user (data dialogOpenFor7)
   \<and> shownUserGuard (show_data story8 dialogOpenFor7) \<noteq> shownUserGuard dialogOpenFor7
   \<and> user (data dialogOpenFor7) = Some (dlg_user (dialogs dialogOpenFor7 ! 0))
   \<and> user (data (show_data story7 (show_data story8 dialogOpenFor7))) = Some 7
   \<and> dlg_guard (dialogs dialogOpenFor7 ! 0)
       < shownUserGuard (show_data story7 (show_data story8 dialogOpenFor7))"
proof -
  have len: "0 < length (dialogs dialogOpenFor7)"
    by (simp add: dialogOpenFor7_def)
  have valid: "dlg_guard (dialogs dialogOpenFor7 ! 0) = shownUserGuard dialogOpenFor7"
    by (simp add: dialogOpenFor7_def replyingTo7_def)
  have other: "user story8 \<noteq> user (data dialogOpenFor7)"
    by (simp add: dialogOpenFor7_def replyingTo7_def story8_def)
  have later: "run (demoCollaborators [] None None) [Show story7] (show_data story8 dialogOpenFor7)
      = Inr (show_data story7 (show_data story8 dialogOpenFor7))"
    by simp
  have again: "user (data (show_data story7 (show_data story8 dialogOpenFor7))) = Some 7"
    by (simp add: show_data_members story7_def)
  from dialog_callback_dead_after_user_change
    [OF dialogOpenFor7_reachable, of story8 "\<lparr>paths = [], remoteContent = []\<rparr>"]
    len valid other later again
  show ?thesis
    by blast
qed

end
